theory Spec2Isabelle
  imports Main "HOL-Library.Multiset"
begin

section \<open>Lottery results server: data model\<close>

text \<open>
  The server (server.js) keeps, for each lottery game, a window of the most recent
  contests in one JSON document (db.json), fills it once from the upstream API
  (\<open>initializeDatabase\<close>), extends it on every scheduled tick (\<open>updateDatabase\<close>) and
  serves it over HTTP.

  A contest is the JSON object the upstream returns: the integer field \<open>numero\<close> and the
  remaining fields, which the program never inspects and stores verbatim (\<open>payload\<close>).
  \<open>numero\<close> is a JavaScript number, a double; the model holds its value, an integer.
\<close>

record contest =
  numero :: int
  payload :: string

text \<open>The document: a JSON object from game name to an array of contests.\<close>

type_synonym database = "string \<Rightarrow> contest list option"

text \<open>
  The durable file db.json, as the program can observe it: absent (\<open>fs.access\<close> and
  \<open>fs.readFile\<close> reject), present with a text that \<open>JSON.parse\<close> rejects, or present
  with the text of a document. A written document is \<open>JSON.stringify(database, null, 2)\<close>,
  a function of the document, so the file is identified with the document it holds.
\<close>

datatype db_file = Missing | Corrupt | Document database

text \<open>
  What an awaited call yields: it throws (with the error's message) or returns a value.
\<close>

datatype 'a outcome = Throws string | Returns 'a

text \<open>
  The response object of \<open>fetch\<close>: its status code and what \<open>response.json()\<close> yields.
  \<open>response.ok\<close> is true exactly for the status codes 200 to 299.
\<close>

record http_response =
  status :: nat
  json :: "contest outcome"

definition ok :: "http_response \<Rightarrow> bool" where
  "ok response = (200 \<le> status response \<and> status response \<le> 299)"

text \<open>
  The upstream during one pass: what \<open>fetch(url)\<close> yields for the URL of a game and of
  the last path segment, which is a contest number or empty (\<open>None\<close>).
\<close>

type_synonym upstream = "string \<Rightarrow> int option \<Rightarrow> http_response outcome"

text \<open>
  The observable effects, in the order the model performs them: requests to the
  upstream, the lines written with \<open>console.error\<close> and \<open>console.warn\<close>, and the
  operations on db.json. The informational \<open>console.log\<close> lines are not modelled.
  Requests started together and awaited with \<open>Promise.all\<close> are listed in the order
  they were started. \<open>Never_returns\<close> ends the trace of a run that does not end.
\<close>

datatype event =
    Http_get string "int option"
  | Error_bad_status string "int option" nat
  | Error_request_failed string "int option" string
  | Warn_no_latest_history string
  | Warn_no_latest_update string
  | Error_db_unreadable
  | Fs_access
  | Fs_read
  | Fs_write
  | Never_returns

definition LOTTERY_GAMES :: "string list" where
  "LOTTERY_GAMES =
     [''lotofacil'', ''megasena'', ''maismilionaria'', ''quina'', ''lotomania'',
      ''timemania'', ''duplasena'', ''diadesorte'', ''supersete'']"

definition CONTESTS_TO_STORE :: nat where
  "CONTESTS_TO_STORE = 500"

section \<open>Arithmetic on numbers\<close>

text \<open>
  The sums and differences of the program are computed on doubles: the exact result is
  rounded to the nearest number with a significand of 53 bits, a tie going to the even
  significand. \<open>ulp a\<close> is the distance between neighbouring doubles at the magnitude
  \<open>a\<close>: 1 below \<open>2 ^ 53\<close>, and doubling with every further bit.
\<close>

fun ulp :: "nat \<Rightarrow> nat" where
  "ulp a = (if a < 2 ^ 53 then 1 else 2 * ulp (a div 2))"

declare ulp.simps [simp del]

text \<open>
  The double nearest to an integer. Integers up to \<open>2 ^ 53\<close> in magnitude are doubles
  themselves; \<open>2 ^ 53 + 1\<close> is the first that is not. The program only adds 1 to a double
  or subtracts an index below the window size from one, which never rounds beyond the
  largest double: overflow is not modelled.
\<close>

definition fl :: "int \<Rightarrow> int" where
  "fl x =
     (let a = nat \<bar>x\<bar>;
          q = ulp a;
          d = a div q;
          r = a mod q;
          m = (if 2 * r < q then d
               else if q < 2 * r then d + 1
               else if even d then d else d + 1)
      in sgn x * int (m * q))"

section \<open>Contest fetcher\<close>

text \<open>
  The last path segment of the URL is \<open>contestNumber || ''\<close>: empty for \<open>null\<close> and
  for 0.
\<close>

definition url_suffix :: "int option \<Rightarrow> int option" where
  "url_suffix contestNumber =
     (case contestNumber of
        None \<Rightarrow> None
      | Some n \<Rightarrow> if n = 0 then None else Some n)"

definition fetchContestData ::
  "upstream \<Rightarrow> string \<Rightarrow> int option \<Rightarrow> contest option \<times> event list" where
  "fetchContestData net game contestNumber =
     (let url = url_suffix contestNumber in
      case net game url of
        Throws message \<Rightarrow>
          (None, [Http_get game url, Error_request_failed game contestNumber message])
      | Returns response \<Rightarrow>
          if \<not> ok response then
            (None, [Http_get game url,
                    Error_bad_status game contestNumber (status response)])
          else
            (case json response of
               Throws message \<Rightarrow>
                 (None, [Http_get game url,
                         Error_request_failed game contestNumber message])
             | Returns data \<Rightarrow>
                 if numero data = 0 then (None, [Http_get game url])
                 else (Some data, [Http_get game url])))"

text \<open>
  \<open>Promise.all\<close> over the calls \<open>fetchContestData(game, num)\<close>: the results in the
  order of the calls.
\<close>

definition fetchAll ::
  "upstream \<Rightarrow> string \<Rightarrow> int list \<Rightarrow> contest option list \<times> event list" where
  "fetchAll net game nums =
     (let calls = map (\<lambda>num. fetchContestData net game (Some num)) nums
      in (map fst calls, concat (map snd calls)))"

text \<open>\<open>results.filter(r => r !== null)\<close>\<close>

definition non_null :: "'a option list \<Rightarrow> 'a list" where
  "non_null results = concat (map (\<lambda>r. case r of None \<Rightarrow> [] | Some x \<Rightarrow> [x]) results)"

section \<open>Bootstrap synchronizer\<close>

text \<open>
  The contest numbers requested for the history of a game: \<open>latestContestNumber - i\<close>,
  a difference of doubles, for \<open>i\<close> from 0 below the window size, where positive.
\<close>

definition historyNumbers :: "nat \<Rightarrow> int \<Rightarrow> int list" where
  "historyNumbers N latestContestNumber =
     filter (\<lambda>contestNum. contestNum > 0)
       (map (\<lambda>i. fl (latestContestNumber - int i)) [0..<N])"

text \<open>
  The body of the loop over the games. The window size is the constant
  \<open>CONTESTS_TO_STORE\<close> of the program, passed as the parameter \<open>N\<close>. The two sorts of the
  program are \<open>Array.prototype.sort\<close> with a comparator on \<open>numero\<close>, a stable sort:
  \<open>sort_key\<close>. The comparator is a difference of doubles, which has the sign of the
  exact difference.
\<close>

definition initializeGame ::
  "nat \<Rightarrow> upstream \<Rightarrow> string \<Rightarrow> database \<Rightarrow> database \<times> event list" where
  "initializeGame N net game database =
     (let (latestContest, e1) = fetchContestData net game None in
      case latestContest of
        None \<Rightarrow> (database, e1 @ [Warn_no_latest_history game])
      | Some latest \<Rightarrow>
          if numero latest = 0 then (database, e1 @ [Warn_no_latest_history game])
          else
            let latestContestNumber = numero latest;
                (results, e2) = fetchAll net game (historyNumbers N latestContestNumber)
            in (database(game \<mapsto> sort_key numero (non_null results)), e1 @ e2))"

text \<open>\<open>for (const game of LOTTERY_GAMES)\<close>, the body run on the document in turn.\<close>

fun for_games ::
  "(string \<Rightarrow> database \<Rightarrow> database \<times> event list) \<Rightarrow> string list \<Rightarrow> database
     \<Rightarrow> database \<times> event list" where
  "for_games body [] database = (database, [])"
| "for_games body (game # games) database =
     (let (database1, e1) = body game database;
          (database2, e2) = for_games body games database1
      in (database2, e1 @ e2))"

definition initializeDatabase :: "nat \<Rightarrow> upstream \<Rightarrow> db_file \<Rightarrow> db_file \<times> event list" where
  "initializeDatabase N net file =
     (case file of
        Missing \<Rightarrow>
          (let (database, e) = for_games (initializeGame N net) LOTTERY_GAMES Map.empty
           in (Document database, [Fs_access] @ e @ [Fs_write]))
      | _ \<Rightarrow> (file, [Fs_access]))"

section \<open>Incremental synchronizer\<close>

text \<open>\<open>database[game] || []\<close>\<close>

definition stored :: "database \<Rightarrow> string \<Rightarrow> contest list" where
  "stored database game = (case database game of None \<Rightarrow> [] | Some contests \<Rightarrow> contests)"

definition latestStored :: "contest list \<Rightarrow> int" where
  "latestStored storedContests =
     (if length storedContests > 0 then Max (set (map numero storedContests)) else 0)"

definition mergeContests :: "nat \<Rightarrow> contest list \<Rightarrow> contest list \<Rightarrow> contest list" where
  "mergeContests N storedContests newResults =
     sort_key numero (take N (sort_key (\<lambda>c. - numero c) (storedContests @ newResults)))"

text \<open>
  The numbers \<open>num\<close> of
  \<open>for (let num = latestStoredNumber + 1; num <= latestApiNumber; num++)\<close>,
  from the current \<open>num\<close> on. \<open>num++\<close> adds 1 on doubles, and from \<open>2 ^ 53\<close> on it leaves
  \<open>num\<close> as it is: the loop then never ends, which is the value \<open>None\<close>.
\<close>

partial_function (option) numbersToFetch :: "int \<Rightarrow> int \<Rightarrow> int list option" where
  "numbersToFetch num latestApiNumber =
     (if num \<le> latestApiNumber
      then Option.bind (numbersToFetch (fl (num + 1)) latestApiNumber)
             (\<lambda>nums. Some (num # nums))
      else Some [])"

text \<open>
  What the body of the loop over the games comes to: the document and the trace it ends
  with, or the trace up to the point where it stops making progress. The calls
  \<open>fetchContestData(game, num)\<close> of a loop that never ends send no request: each stops at
  its first \<open>await\<close>, and the loop never yields.
\<close>

datatype pass = Completed database "event list" | Hung "event list"

definition updateGame :: "nat \<Rightarrow> upstream \<Rightarrow> string \<Rightarrow> database \<Rightarrow> pass" where
  "updateGame N net game database =
     (let (latestContest, e1) = fetchContestData net game None in
      case latestContest of
        None \<Rightarrow> Completed database (e1 @ [Warn_no_latest_update game])
      | Some latest \<Rightarrow>
          if numero latest = 0 then Completed database (e1 @ [Warn_no_latest_update game])
          else
            let latestApiNumber = numero latest;
                storedContests = stored database game;
                latestStoredNumber = latestStored storedContests
            in if latestApiNumber > latestStoredNumber then
                 (case numbersToFetch (fl (latestStoredNumber + 1)) latestApiNumber of
                    None \<Rightarrow> Hung e1
                  | Some nums \<Rightarrow>
                      let (contestsToFetch, e2) = fetchAll net game nums;
                          newResults = non_null contestsToFetch
                      in if length newResults > 0 then
                           Completed
                             (database(game \<mapsto> mergeContests N storedContests newResults))
                             (e1 @ e2)
                         else Completed database (e1 @ e2))
               else Completed database e1)"

text \<open>
  \<open>for (const game of LOTTERY_GAMES)\<close> of \<open>updateDatabase\<close>: a body that never ends is
  the last one to run.
\<close>

fun update_games ::
  "(string \<Rightarrow> database \<Rightarrow> pass) \<Rightarrow> string list \<Rightarrow> database \<Rightarrow> pass" where
  "update_games body [] database = Completed database []"
| "update_games body (game # games) database =
     (case body game database of
        Hung e1 \<Rightarrow> Hung e1
      | Completed database1 e1 \<Rightarrow>
          (case update_games body games database1 of
             Hung e2 \<Rightarrow> Hung (e1 @ e2)
           | Completed database2 e2 \<Rightarrow> Completed database2 (e1 @ e2)))"

text \<open>
  The file after the run and the trace of the run. A run that never ends has written
  nothing: the file stays as it was.
\<close>

definition updateDatabase :: "nat \<Rightarrow> upstream \<Rightarrow> db_file \<Rightarrow> db_file \<times> event list" where
  "updateDatabase N net file =
     (case file of
        Document database \<Rightarrow>
          (case update_games (updateGame N net) LOTTERY_GAMES database of
             Completed database1 e \<Rightarrow> (Document database1, [Fs_read] @ e @ [Fs_write])
           | Hung e \<Rightarrow> (file, [Fs_read] @ e @ [Never_returns]))
      | _ \<Rightarrow> (file, [Fs_read, Error_db_unreadable]))"

section \<open>Query service\<close>

datatype reply_body = Contests "contest list" | Game_not_found | Db_read_error

datatype reply = Reply nat reply_body

text \<open>\<open>GET /api/resultados/:gameName\<close>\<close>

definition getGame :: "string \<Rightarrow> db_file \<Rightarrow> reply \<times> event list" where
  "getGame gameName file =
     (if gameName \<notin> set LOTTERY_GAMES then (Reply 404 Game_not_found, [])
      else
        (case file of
           Document database \<Rightarrow>
             (let gameData = stored database gameName
              in (Reply 200 (Contests (sort_key (\<lambda>c. - numero c) gameData)), [Fs_read]))
         | _ \<Rightarrow> (Reply 500 Db_read_error, [Fs_read])))"

section \<open>Observations\<close>

text \<open>The window of a game in the file, as every reader of the file takes it.\<close>

definition window :: "db_file \<Rightarrow> string \<Rightarrow> contest list" where
  "window file game = (case file of Document database \<Rightarrow> stored database game | _ \<Rightarrow> [])"

definition readable :: "db_file \<Rightarrow> bool" where
  "readable file = (case file of Document database \<Rightarrow> True | _ \<Rightarrow> False)"

text \<open>The URL suffixes of the requests a trace holds for one game.\<close>

fun requests_of :: "string \<Rightarrow> event list \<Rightarrow> int option list" where
  "requests_of game [] = []"
| "requests_of game (Http_get g suffix # es) =
     (if g = game then suffix # requests_of game es else requests_of game es)"
| "requests_of game (e # es) = requests_of game es"

text \<open>
  The file after the bootstrap on an absent file with the upstream \<open>net0\<close>, followed by
  one tick of the incremental synchronizer for each upstream of \<open>ticks\<close>.
\<close>

definition history :: "nat \<Rightarrow> upstream \<Rightarrow> upstream list \<Rightarrow> db_file" where
  "history N net0 ticks =
     fold (\<lambda>net file. fst (updateDatabase N net file)) ticks
       (fst (initializeDatabase N net0 Missing))"

text \<open>The lines of a trace written with \<open>console.error\<close> or \<open>console.warn\<close>.\<close>

definition is_diagnostic :: "event \<Rightarrow> bool" where
  "is_diagnostic e =
     (case e of
        Error_bad_status g c s \<Rightarrow> True
      | Error_request_failed g c m \<Rightarrow> True
      | Warn_no_latest_history g \<Rightarrow> True
      | Warn_no_latest_update g \<Rightarrow> True
      | Error_db_unreadable \<Rightarrow> True
      | _ \<Rightarrow> False)"

text \<open>
  The three ways a request ends, read off the upstream alone: the request fails
  (\<open>fetch\<close> throws, or the body of a successful response cannot be decoded, both caught
  as a failed request), the status is not a success, or a contest is delivered.
\<close>

definition request_fails :: "upstream \<Rightarrow> string \<Rightarrow> int option \<Rightarrow> bool" where
  "request_fails net game contestNumber =
     (case net game (url_suffix contestNumber) of
        Throws m \<Rightarrow> True
      | Returns response \<Rightarrow>
          ok response \<and> (case json response of Throws m \<Rightarrow> True | Returns data \<Rightarrow> False))"

definition status_not_ok :: "upstream \<Rightarrow> string \<Rightarrow> int option \<Rightarrow> bool" where
  "status_not_ok net game contestNumber =
     (case net game (url_suffix contestNumber) of
        Throws m \<Rightarrow> False
      | Returns response \<Rightarrow> \<not> ok response)"

definition delivered :: "upstream \<Rightarrow> string \<Rightarrow> int option \<Rightarrow> contest option" where
  "delivered net game contestNumber =
     (case net game (url_suffix contestNumber) of
        Throws m \<Rightarrow> None
      | Returns response \<Rightarrow>
          if ok response
          then (case json response of Throws m \<Rightarrow> None | Returns data \<Rightarrow> Some data)
          else None)"

text \<open>The entry of a game in the document of the file, if it has one.\<close>

definition entry :: "db_file \<Rightarrow> string \<Rightarrow> contest list option" where
  "entry file game = (case file of Document database \<Rightarrow> database game | _ \<Rightarrow> None)"

text \<open>
  The non-null results of \<open>fetchContestData(game, num)\<close> for every contest number above
  \<open>lo\<close> up to \<open>hi\<close>, in ascending order of the numbers.
\<close>

definition fetched_range :: "upstream \<Rightarrow> string \<Rightarrow> int \<Rightarrow> int \<Rightarrow> contest list" where
  "fetched_range net game lo hi =
     non_null (map (\<lambda>num. fst (fetchContestData net game (Some num))) [lo + 1 .. hi])"

text \<open>
  The upstream has nothing new for a game: its latest contest cannot be fetched, or its
  number is not above the highest stored one.
\<close>

definition up_to_date :: "upstream \<Rightarrow> db_file \<Rightarrow> string \<Rightarrow> bool" where
  "up_to_date net file game =
     (case fst (fetchContestData net game None) of
        None \<Rightarrow> True
      | Some latest \<Rightarrow> numero latest \<le> latestStored (window file game))"

text \<open>
  The upstream answers a request for a positive contest number with the contest of that
  number, when it delivers one.
\<close>

definition faithful :: "upstream \<Rightarrow> bool" where
  "faithful net =
     (\<forall>game n c. 0 < n \<longrightarrow> fst (fetchContestData net game (Some n)) = Some c \<longrightarrow> numero c = n)"

text \<open>
  Every contest number the upstream delivers is a safe integer: below \<open>2 ^ 53\<close> in
  magnitude, where the arithmetic on doubles is exact.
\<close>

definition safe :: "upstream \<Rightarrow> bool" where
  "safe net =
     (\<forall>game contestNumber c.
        fst (fetchContestData net game contestNumber) = Some c \<longrightarrow>
        \<bar>numero c\<bar> < 9007199254740992)"

text \<open>What a pass leaves of the document, if it ends, and its trace.\<close>

definition pass_db :: "pass \<Rightarrow> database option" where
  "pass_db p = (case p of Completed database e \<Rightarrow> Some database | Hung e \<Rightarrow> None)"

definition pass_events :: "pass \<Rightarrow> event list" where
  "pass_events p = (case p of Completed database e \<Rightarrow> e | Hung e \<Rightarrow> e)"

text \<open>The contest numbers of a window are safe integers.\<close>

definition within_safe :: "contest list \<Rightarrow> bool" where
  "within_safe contests = (\<forall>c \<in> set contests. \<bar>numero c\<bar> < 9007199254740992)"

text \<open>The contest numbers of a window are positive and pairwise different.\<close>

definition unique_positive :: "contest list \<Rightarrow> bool" where
  "unique_positive contests = (distinct (map numero contests) \<and> (\<forall>c \<in> set contests. 0 < numero c))"

section \<open>Concrete upstreams and documents\<close>

definition draw :: "int \<Rightarrow> contest" where
  "draw n = \<lparr>numero = n, payload = ''dezenas''\<rparr>"

definition served :: "contest \<Rightarrow> http_response outcome" where
  "served c = Returns \<lparr>status = 200, json = Returns c\<rparr>"

definition not_found :: "http_response outcome" where
  "not_found = Returns \<lparr>status = 404, json = Throws ''Unexpected token''\<rparr>"

text \<open>No game can be reached.\<close>

definition offline :: upstream where
  "offline game suffix = Throws ''ECONNREFUSED''"

text \<open>Every request is answered with the sentinel contest 0.\<close>

definition sentinel_upstream :: upstream where
  "sentinel_upstream game suffix = served (draw 0)"

text \<open>
  Only megasena is reachable; its latest contest is \<open>latest\<close>, and the contests from 1 to
  \<open>latest\<close> are served under their numbers except for those of \<open>gaps\<close>.
\<close>

definition megasena_upstream :: "int \<Rightarrow> int list \<Rightarrow> upstream" where
  "megasena_upstream latest gaps game suffix =
     (if game = ''megasena'' then
        (case suffix of
           None \<Rightarrow> served (draw latest)
         | Some n \<Rightarrow> if 1 \<le> n \<and> n \<le> latest \<and> n \<notin> set gaps then served (draw n) else not_found)
      else Throws ''ECONNREFUSED'')"

definition megasena_document :: "int list \<Rightarrow> db_file" where
  "megasena_document nums = Document (Map.empty(''megasena'' \<mapsto> map draw nums))"

text \<open>Every request, for the latest contest or for a number, is answered with contest 2.\<close>

definition stuck_upstream :: upstream where
  "stuck_upstream game suffix = served (draw 2)"

section \<open>Traces and the loop over the games\<close>

lemma requests_of_append:
  "requests_of game (es @ fs) = requests_of game es @ requests_of game fs"
  by (induction game es rule: requests_of.induct) simp_all


lemma fst_fetchAll:
  "fst (fetchAll net game nums) = map (\<lambda>num. fst (fetchContestData net game (Some num))) nums"
  by (simp add: fetchAll_def Let_def comp_def)


lemma length_non_null: "length (non_null results) \<le> length results"
  by (induction results) (simp_all add: non_null_def split: option.splits)

lemma for_games_other:
  assumes "\<And>g d k. k \<noteq> g \<Longrightarrow> fst (body g d) k = d k"
  shows "k \<notin> set games \<Longrightarrow> fst (for_games body games database) k = database k"
  using assms
  by (induction games arbitrary: database) (auto simp: split_beta Let_def)

lemma for_games_own:
  assumes frame: "\<And>g d k. k \<noteq> g \<Longrightarrow> fst (body g d) k = d k"
    and own: "\<And>g d d'. d g = d' g \<Longrightarrow> fst (body g d) g = fst (body g d') g"
  shows "distinct games \<Longrightarrow> k \<in> set games \<Longrightarrow>
         fst (for_games body games database) k = fst (body k database) k"
proof (induction games arbitrary: database)
  case Nil
  then show ?case by simp
next
  case (Cons g games)
  show ?case
  proof (cases "k = g")
    case True
    with Cons.prems have "k \<notin> set games" by simp
    then have "fst (for_games body games (fst (body g database))) k = fst (body g database) k"
      using frame by (rule for_games_other[rotated])
    with True show ?thesis by (simp add: split_beta Let_def)
  next
    case False
    with Cons.prems have k: "k \<in> set games" and d: "distinct games" by simp_all
    have "fst (for_games body games (fst (body g database))) k
            = fst (body k (fst (body g database))) k"
      using Cons.IH[OF d k] .
    also have "\<dots> = fst (body k database) k"
      using False by (intro own frame)
    finally show ?thesis by (simp add: split_beta Let_def)
  qed
qed

lemma for_games_requests:
  assumes frame: "\<And>g d k. k \<noteq> g \<Longrightarrow> fst (body g d) k = d k"
    and quiet: "\<And>g d k. k \<noteq> g \<Longrightarrow> requests_of k (snd (body g d)) = []"
    and own: "\<And>g d d'. d g = d' g \<Longrightarrow>
           requests_of g (snd (body g d)) = requests_of g (snd (body g d'))"
  shows "distinct games \<Longrightarrow>
         requests_of k (snd (for_games body games database)) =
           (if k \<in> set games then requests_of k (snd (body k database)) else [])"
proof (induction games arbitrary: database)
  case Nil
  then show ?case by simp
next
  case (Cons g games)
  then have d: "distinct games" and g: "g \<notin> set games" by simp_all
  show ?case
  proof (cases "k = g")
    case True
    then show ?thesis using Cons.IH[OF d] g
      by (simp add: split_beta Let_def requests_of_append)
  next
    case False
    have "requests_of k (snd (body k (fst (body g database))))
            = requests_of k (snd (body k database))"
      using False by (intro own frame)
    then show ?thesis using Cons.IH[OF d] False
      by (simp add: split_beta Let_def requests_of_append quiet)
  qed
qed

lemma distinct_LOTTERY_GAMES: "distinct LOTTERY_GAMES"
  by (simp add: LOTTERY_GAMES_def)

section \<open>Properties of the contest fetcher\<close>

lemma fetchContestData_nonzero:
  "fst (fetchContestData net game contestNumber) = Some c \<Longrightarrow> numero c \<noteq> 0"
  by (auto simp: fetchContestData_def Let_def split: outcome.splits if_splits)

text \<open>
  Claim C8, as the code has it. \<open>fetchContestData\<close> is total: both awaited calls are
  inside the \<open>try\<close>, so every failure ends in a returned \<open>null\<close>. It returns \<open>null\<close>
  exactly when the request fails, the status is not a success, or the delivered contest
  has \<open>numero\<close> 0; it writes a diagnostic exactly in the first two cases, and nothing
  for contest 0; a delivered contest with another number is returned as it is.
\<close>

theorem fetchContestData_absent_cases:
  "(fst (fetchContestData net game contestNumber) = None \<longleftrightarrow>
      request_fails net game contestNumber \<or> status_not_ok net game contestNumber
      \<or> (\<exists>data. delivered net game contestNumber = Some data \<and> numero data = 0))
   \<and> (filter is_diagnostic (snd (fetchContestData net game contestNumber)) \<noteq> [] \<longleftrightarrow>
        request_fails net game contestNumber \<or> status_not_ok net game contestNumber)
   \<and> (\<forall>data. delivered net game contestNumber = Some data \<and> numero data \<noteq> 0 \<longrightarrow>
         fst (fetchContestData net game contestNumber) = Some data)"
  by (auto simp: fetchContestData_def request_fails_def status_not_ok_def delivered_def
        is_diagnostic_def Let_def split: outcome.splits)

theorem fetchContestData_absent_cases_witness:
  "status_not_ok (megasena_upstream 12 [11]) ''megasena'' (Some 11)
   \<and> fst (fetchContestData (megasena_upstream 12 [11]) ''megasena'' (Some 11)) = None
   \<and> filter is_diagnostic
        (snd (fetchContestData (megasena_upstream 12 [11]) ''megasena'' (Some 11))) \<noteq> []
   \<and> delivered (megasena_upstream 12 [11]) ''megasena'' (Some 12) = Some (draw 12)
   \<and> fst (fetchContestData (megasena_upstream 12 [11]) ''megasena'' (Some 12)) = Some (draw 12)"
  using fetchContestData_absent_cases [of "megasena_upstream 12 [11]" "''megasena''" "Some 11"]
    fetchContestData_absent_cases [of "megasena_upstream 12 [11]" "''megasena''" "Some 12"]
  by (simp add: status_not_ok_def delivered_def megasena_upstream_def url_suffix_def ok_def
        not_found_def served_def draw_def)

text \<open>
  Claim C8, as stated, requires a diagnostic whenever \<open>null\<close> is returned. For the
  sentinel contest 0 the code returns \<open>null\<close> and writes nothing.
\<close>

theorem fetchContestData_zero_not_logged:
  "fst (fetchContestData sentinel_upstream ''megasena'' (Some 9999)) = None
   \<and> filter is_diagnostic (snd (fetchContestData sentinel_upstream ''megasena'' (Some 9999))) = []"
  by (simp add: fetchContestData_def sentinel_upstream_def served_def draw_def url_suffix_def
        ok_def is_diagnostic_def)

section \<open>Properties of the query service\<close>

lemma sorted_descending:
  "sorted (rev (map numero (sort_key (\<lambda>c. - numero c) contests)))"
proof -
  have "sorted (map (\<lambda>c. - numero c) (sort_key (\<lambda>c. - numero c) contests))"
    by (rule sorted_sort_key)
  then show ?thesis
    by (simp add: sorted_wrt_rev sorted_map sorted_wrt_map)
qed

text \<open>
  Claim C9. A game outside \<open>LOTTERY_GAMES\<close> gets status 404 whatever the file holds,
  and the trace is empty: the file is not read. A supported game gets, from a readable
  file, status 200 with the records of its window in descending order of \<open>numero\<close>, and
  from an unreadable file, status 500.
\<close>

theorem getGame_replies:
  "(gameName \<notin> set LOTTERY_GAMES \<longrightarrow> getGame gameName file = (Reply 404 Game_not_found, []))
   \<and> (gameName \<in> set LOTTERY_GAMES \<and> readable file \<longrightarrow>
        (\<exists>contests. fst (getGame gameName file) = Reply 200 (Contests contests)
           \<and> mset contests = mset (window file gameName)
           \<and> sorted (rev (map numero contests))))
   \<and> (gameName \<in> set LOTTERY_GAMES \<and> \<not> readable file \<longrightarrow>
        fst (getGame gameName file) = Reply 500 Db_read_error)"
  by (cases "file")
    (simp_all add: getGame_def readable_def window_def Let_def sorted_descending)

theorem getGame_replies_witness:
  "''loteca'' \<notin> set LOTTERY_GAMES
   \<and> getGame ''loteca'' (megasena_document [6, 7]) = (Reply 404 Game_not_found, [])
   \<and> ''megasena'' \<in> set LOTTERY_GAMES \<and> readable (megasena_document [6, 7])
   \<and> fst (getGame ''megasena'' (megasena_document [6, 7])) = Reply 200 (Contests [draw 7, draw 6])
   \<and> \<not> readable Corrupt
   \<and> fst (getGame ''megasena'' Corrupt) = Reply 500 Db_read_error"
  using getGame_replies [of "''loteca''" "megasena_document [6, 7]"]
    getGame_replies [of "''megasena''" "megasena_document [6, 7]"]
    getGame_replies [of "''megasena''" Corrupt]
  by (simp add: LOTTERY_GAMES_def readable_def megasena_document_def getGame_def stored_def
        draw_def)

text \<open>
  Claim C10. For a supported game whose key is absent from a readable document, or
  whose window is empty, the reply is status 200 with the empty array.
\<close>

theorem getGame_empty_window:
  "gameName \<in> set LOTTERY_GAMES \<Longrightarrow> file = Document database \<Longrightarrow>
   database gameName = None \<or> database gameName = Some [] \<Longrightarrow>
   fst (getGame gameName file) = Reply 200 (Contests [])"
  by (auto simp: getGame_def stored_def)

theorem getGame_empty_window_witness:
  "''quina'' \<in> set LOTTERY_GAMES
   \<and> fst (getGame ''quina'' (megasena_document [6, 7])) = Reply 200 (Contests [])"
  using getGame_empty_window [of "''quina''" "megasena_document [6, 7]"
      "Map.empty(''megasena'' \<mapsto> map draw [6, 7])"]
  by (simp add: LOTTERY_GAMES_def megasena_document_def)

section \<open>The merge\<close>


lemma length_mergeContests: "length (mergeContests N old new) \<le> N"
  by (simp add: mergeContests_def)



lemma set_mergeContests: "set (mergeContests N old new) \<subseteq> set old \<union> set new"
  using set_take_subset[of N "sort_key (\<lambda>c. - numero c) (old @ new)"]
  by (simp add: mergeContests_def)

lemma mergeContests_keeps_or_full:
  assumes "c \<in> set old \<union> set new"
  shows "c \<in> set (mergeContests N old new)
         \<or> (length (mergeContests N old new) = N
            \<and> (\<forall>d \<in> set (mergeContests N old new). numero c \<le> numero d))"
proof -
  define ds where "ds = sort_key (\<lambda>c. - numero c) (old @ new)"
  have srt: "sorted (map (\<lambda>c. - numero c) (take N ds @ drop N ds))"
    by (simp add: ds_def sorted_sort_key)
  have m: "set (mergeContests N old new) = set (take N ds)"
      "length (mergeContests N old new) = length (take N ds)"
    by (simp_all add: mergeContests_def ds_def)
  have "set ds = set (take N ds) \<union> set (drop N ds)"
    by (metis append_take_drop_id set_append)
  with assms consider "c \<in> set (take N ds)" | "c \<in> set (drop N ds)"
    by (auto simp: ds_def)
  then show ?thesis
  proof cases
    case 1
    with m show ?thesis by simp
  next
    case 2
    then have "drop N ds \<noteq> []" by auto
    then have len: "length (take N ds) = N" by simp
    have "\<forall>d \<in> set (take N ds). numero c \<le> numero d"
      using srt 2 unfolding map_append sorted_append by auto
    with len m show ?thesis by simp
  qed
qed

lemma distinct_mergeContests:
  assumes "distinct (map numero (old @ new))"
  shows "distinct (map numero (mergeContests N old new))"
proof -
  have "mset (map numero (sort_key (\<lambda>c. - numero c) (old @ new))) = mset (map numero (old @ new))"
    by simp
  then have "distinct (map numero (sort_key (\<lambda>c. - numero c) (old @ new)))"
    using assms by (metis mset_eq_imp_distinct_iff)
  then have "distinct (take N (map numero (sort_key (\<lambda>c. - numero c) (old @ new))))"
    by (rule distinct_take)
  then have "distinct (map numero (take N (sort_key (\<lambda>c. - numero c) (old @ new))))"
    by (simp add: take_map)
  moreover have "mset (map numero (mergeContests N old new))
        = mset (map numero (take N (sort_key (\<lambda>c. - numero c) (old @ new))))"
    by (simp add: mergeContests_def)
  ultimately show ?thesis by (metis mset_eq_imp_distinct_iff)
qed

section \<open>Rounding and the loop over the new numbers\<close>

lemma ulp_small: "a < 9007199254740992 \<Longrightarrow> ulp a = 1"
  by (subst ulp.simps) simp

lemma ulp_large: "9007199254740992 \<le> a \<Longrightarrow> ulp a = 2 * ulp (a div 2)"
  by (subst ulp.simps) simp

lemma fl_small: "\<bar>x\<bar> < 9007199254740992 \<Longrightarrow> fl x = x"
  by (simp add: fl_def ulp_small Let_def sgn_if)

lemma fl_2_53: "fl 9007199254740992 = 9007199254740992"
  by (simp add: fl_def ulp_large ulp_small Let_def)

lemma fl_minus_2_53: "fl (- 9007199254740992) = - 9007199254740992"
  by (simp add: fl_def ulp_large ulp_small Let_def)

lemma fl_exact: "\<bar>x\<bar> \<le> 9007199254740992 \<Longrightarrow> fl x = x"
proof -
  assume "\<bar>x\<bar> \<le> 9007199254740992"
  then consider "\<bar>x\<bar> < 9007199254740992" | "x = 9007199254740992" | "x = - 9007199254740992"
    by linarith
  then show ?thesis
    by cases (simp_all add: fl_small fl_2_53 fl_minus_2_53)
qed

lemma fl_nonpos: "x \<le> 0 \<Longrightarrow> fl x \<le> 0"
  by (simp add: fl_def Let_def sgn_if)

lemma fl_even: "9007199254740992 \<le> \<bar>x\<bar> \<Longrightarrow> even (fl x)"
proof -
  assume "9007199254740992 \<le> \<bar>x\<bar>"
  then have "even (ulp (nat \<bar>x\<bar>))"
    by (simp add: ulp_large)
  then show ?thesis
    by (simp add: fl_def Let_def)
qed

lemma fl_stuck: "fl 9007199254740993 = 9007199254740992"
  by (simp add: fl_def ulp_large ulp_small Let_def)

lemma numbersToFetch_exact_from:
  "\<bar>num\<bar> \<le> 9007199254740992 \<Longrightarrow> hi < 9007199254740992 \<Longrightarrow>
   numbersToFetch num hi = Some [num .. hi]"
proof (induction "nat (hi + 1 - num)" arbitrary: num)
  case 0
  then have "hi < num" by simp
  then show ?case by (subst numbersToFetch.simps) simp
next
  case (Suc k)
  then have le: "num \<le> hi" by linarith
  with Suc.prems have next_exact: "fl (num + 1) = num + 1"
    by (intro fl_exact) linarith
  have "numbersToFetch (num + 1) hi = Some [num + 1 .. hi]"
    using Suc.hyps(2) Suc.prems le by (intro Suc.hyps(1)) linarith+
  with le next_exact show ?case
    by (subst numbersToFetch.simps) (simp add: upto_rec1)
qed

lemma numbersToFetch_exact:
  "- 9007199254740992 \<le> lo \<Longrightarrow> lo < 9007199254740992 \<Longrightarrow> hi < 9007199254740992 \<Longrightarrow>
   numbersToFetch (fl (lo + 1)) hi = Some [lo + 1 .. hi]"
proof -
  assume a: "- 9007199254740992 \<le> lo" "lo < 9007199254740992" "hi < 9007199254740992"
  then have b: "\<bar>lo + 1\<bar> \<le> 9007199254740992" by linarith
  then have "fl (lo + 1) = lo + 1" by (rule fl_exact)
  with b a(3) show ?thesis by (simp add: numbersToFetch_exact_from)
qed




section \<open>The requested contest numbers of the bootstrap\<close>

lemma historyNumbers_Suc:
  "historyNumbers (Suc N) L =
     historyNumbers N L @ (if fl (L - int N) > 0 then [fl (L - int N)] else [])"
  by (simp add: historyNumbers_def)

lemma fl_positive: "x \<le> 9007199254740992 \<Longrightarrow> (0 < fl x) = (0 < x)"
proof (cases "0 < x")
  case True
  assume "x \<le> 9007199254740992"
  with True have "fl x = x" by (intro fl_exact) linarith
  with True show ?thesis by simp
next
  case False
  then have "fl x \<le> 0" by (intro fl_nonpos) simp
  with False show ?thesis by simp
qed

lemma historyNumbers_eq:
  "L \<le> 9007199254740992 \<Longrightarrow> historyNumbers N L = rev [max 1 (L - int N + 1) .. L]"
proof (induction N)
  case 0
  then show ?case by (simp add: historyNumbers_def)
next
  case (Suc N)
  then have pos: "(0 < fl (L - int N)) = (0 < L - int N)"
    by (intro fl_positive) linarith
  show ?case
  proof (cases "L - int N > 0")
    case True
    with Suc.prems have ex: "fl (L - int N) = L - int N" by (intro fl_exact) linarith
    from True have "[max 1 (L - int (Suc N) + 1) .. L] = (L - int N) # [max 1 (L - int N + 1) .. L]"
      by (simp add: upto_rec1 max_def)
    with True Suc ex show ?thesis by (simp add: historyNumbers_Suc)
  next
    case False
    then have "max 1 (L - int (Suc N) + 1) = max 1 (L - int N + 1)" by simp
    with False Suc pos show ?thesis by (simp add: historyNumbers_Suc)
  qed
qed

lemma length_historyNumbers: "length (historyNumbers N L) \<le> N"
  unfolding historyNumbers_def
  by (rule order_trans[OF length_filter_le]) simp

lemma positive_historyNumbers: "n \<in> set (historyNumbers N L) \<Longrightarrow> 0 < n"
  by (simp add: historyNumbers_def)

lemma distinct_historyNumbers: "L \<le> 9007199254740992 \<Longrightarrow> distinct (historyNumbers N L)"
  by (simp add: historyNumbers_eq)

lemma historyNumbers_doubles:
  "n \<in> set (historyNumbers N L) \<Longrightarrow> n \<noteq> 9007199254740993"
proof
  assume "n \<in> set (historyNumbers N L)" and n: "n = 9007199254740993"
  then obtain x where x: "fl x = 9007199254740993"
    by (auto simp: historyNumbers_def)
  show False
  proof (cases "\<bar>x\<bar> < 9007199254740992")
    case True
    then have "fl x = x" by (rule fl_small)
    with x True show False by simp
  next
    case False
    then have "even (fl x)" by (intro fl_even) simp
    with x show False by simp
  qed
qed

lemma historyNumbers_add:
  "historyNumbers (m + k) L =
     historyNumbers m L @ filter (\<lambda>n. 0 < n) (map (\<lambda>i. fl (L - int i)) [m..<m + k])"
proof -
  have "[0..<m + k] = [0..<m] @ [m..<m + k]"
    by (rule upt_add_eq_append) simp
  then show ?thesis
    by (simp add: historyNumbers_def)
qed

lemma historyNumbers_beyond_safe:
  "historyNumbers 3 9007199254740994 = [9007199254740994, 9007199254740992, 9007199254740992]"
proof -
  have "[0..<3] = [0, 1, 2 :: nat]"
    by (simp add: eval_nat_numeral)
  moreover have "fl 9007199254740994 = 9007199254740994"
    by (simp add: fl_def ulp_large ulp_small Let_def)
  ultimately show ?thesis
    by (simp add: historyNumbers_def fl_stuck fl_2_53)
qed

section \<open>The bootstrap pass\<close>

lemma fst_initializeGame:
  "fst (initializeGame N net game database) =
     (case fst (fetchContestData net game None) of
        None \<Rightarrow> database
      | Some latest \<Rightarrow>
          database(game \<mapsto> sort_key numero (non_null
            (map (\<lambda>num. fst (fetchContestData net game (Some num)))
               (historyNumbers N (numero latest))))))"
  by (auto simp: initializeGame_def Let_def split_beta fst_fetchAll
        split: option.splits dest: fetchContestData_nonzero)

lemma initializeGame_frame:
  "k \<noteq> g \<Longrightarrow> fst (initializeGame N net g d) k = d k"
  by (simp add: fst_initializeGame split: option.splits)

lemma initializeGame_own:
  "d g = d' g \<Longrightarrow> fst (initializeGame N net g d) g = fst (initializeGame N net g d') g"
  by (simp add: fst_initializeGame split: option.splits)

lemma entry_initializeDatabase:
  "entry (fst (initializeDatabase N net Missing)) game =
     (if game \<in> set LOTTERY_GAMES then fst (initializeGame N net game Map.empty) game else None)"
  using for_games_own[of "initializeGame N net", OF initializeGame_frame initializeGame_own
      distinct_LOTTERY_GAMES, of game Map.empty]
    for_games_other[of "initializeGame N net", OF initializeGame_frame, of game LOTTERY_GAMES
      Map.empty]
  by (simp add: entry_def initializeDatabase_def split_beta)

lemma window_entry: "window file game = (case entry file game of None \<Rightarrow> [] | Some w \<Rightarrow> w)"
  by (simp add: window_def entry_def stored_def split: db_file.splits)

lemma window_initializeDatabase:
  "window (fst (initializeDatabase N net Missing)) game =
     (if game \<in> set LOTTERY_GAMES then
        (case fst (fetchContestData net game None) of
           None \<Rightarrow> []
         | Some latest \<Rightarrow>
             sort_key numero (non_null
               (map (\<lambda>num. fst (fetchContestData net game (Some num)))
                  (historyNumbers N (numero latest)))))
      else [])"
  by (simp add: window_entry entry_initializeDatabase fst_initializeGame split: option.splits)

lemma readable_initializeDatabase: "readable (fst (initializeDatabase N net Missing))"
  by (simp add: initializeDatabase_def readable_def split_beta)

section \<open>One update pass\<close>

text \<open>The body of the update loop.\<close>

lemma pass_db_updateGame:
  "pass_db (updateGame N net game database) =
     (case fst (fetchContestData net game None) of
        None \<Rightarrow> Some database
      | Some latest \<Rightarrow>
          if latestStored (stored database game) < numero latest then
            (case numbersToFetch (fl (latestStored (stored database game) + 1)) (numero latest) of
               None \<Rightarrow> None
             | Some nums \<Rightarrow>
                 if non_null (map (\<lambda>num. fst (fetchContestData net game (Some num))) nums) \<noteq> []
                 then Some (database(game \<mapsto> mergeContests N (stored database game)
                        (non_null (map (\<lambda>num. fst (fetchContestData net game (Some num))) nums))))
                 else Some database)
          else Some database)"
  by (auto simp: updateGame_def pass_db_def Let_def split_beta fst_fetchAll
        split: option.splits dest: fetchContestData_nonzero)


lemma fetchContestData_returns: "Never_returns \<notin> set (snd (fetchContestData net game cn))"
  by (simp add: fetchContestData_def Let_def split: outcome.splits)

lemma fetchAll_returns: "Never_returns \<notin> set (snd (fetchAll net game nums))"
  by (induction nums) (simp_all add: fetchAll_def Let_def fetchContestData_returns)

lemma updateGame_events: "Never_returns \<notin> set (pass_events (updateGame N net game database))"
  by (auto simp: updateGame_def pass_events_def Let_def split_beta fetchContestData_returns
        fetchAll_returns split: option.splits)

lemma updateGame_frame:
  "pass_db (updateGame N net g d) = Some d' \<Longrightarrow> k \<noteq> g \<Longrightarrow> d' k = d k"
  by (auto simp: pass_db_updateGame split: option.splits if_splits)

lemma updateGame_own:
  "d g = d' g \<Longrightarrow>
   map_option (\<lambda>x. x g) (pass_db (updateGame N net g d))
     = map_option (\<lambda>x. x g) (pass_db (updateGame N net g d'))"
  by (simp add: pass_db_updateGame stored_def split: option.splits)



text \<open>The update loop.\<close>

lemma pass_db_update_games_Cons:
  "pass_db (update_games body (g # games) d) =
     (case pass_db (body g d) of
        None \<Rightarrow> None
      | Some d1 \<Rightarrow> pass_db (update_games body games d1))"
  by (simp add: pass_db_def split: pass.splits)


lemma update_games_other:
  assumes frame: "\<And>g d d' k. pass_db (body g d) = Some d' \<Longrightarrow> k \<noteq> g \<Longrightarrow> d' k = d k"
  shows "pass_db (update_games body games d) = Some d2 \<Longrightarrow> k \<notin> set games \<Longrightarrow> d2 k = d k"
proof (induction games arbitrary: d)
  case Nil
  then show ?case by (simp add: pass_db_def)
next
  case (Cons g games)
  from Cons.prems(1) obtain d1 where d1: "pass_db (body g d) = Some d1"
    and rest: "pass_db (update_games body games d1) = Some d2"
    by (auto simp: pass_db_update_games_Cons simp del: update_games.simps split: option.splits)
  from Cons.prems(2) have "k \<noteq> g" and "k \<notin> set games" by simp_all
  with Cons.IH[OF rest] frame[OF d1] show ?case by simp
qed

lemma update_games_own:
  assumes frame: "\<And>g d d' k. pass_db (body g d) = Some d' \<Longrightarrow> k \<noteq> g \<Longrightarrow> d' k = d k"
    and own: "\<And>g d d'. d g = d' g \<Longrightarrow>
           map_option (\<lambda>x. x g) (pass_db (body g d)) = map_option (\<lambda>x. x g) (pass_db (body g d'))"
  shows "distinct games \<Longrightarrow> pass_db (update_games body games d) = Some d2 \<Longrightarrow>
         k \<in> set games \<Longrightarrow> map_option (\<lambda>x. x k) (pass_db (body k d)) = Some (d2 k)"
proof (induction games arbitrary: d)
  case Nil
  then show ?case by simp
next
  case (Cons g games)
  from Cons.prems(2) obtain d1 where d1: "pass_db (body g d) = Some d1"
    and rest: "pass_db (update_games body games d1) = Some d2"
    by (auto simp: pass_db_update_games_Cons simp del: update_games.simps split: option.splits)
  from Cons.prems(1) have dist: "distinct games" and g: "g \<notin> set games" by simp_all
  show ?case
  proof (cases "k = g")
    case True
    have "d2 g = d1 g"
      using frame rest g by (rule update_games_other)
    with True d1 show ?thesis by simp
  next
    case False
    with Cons.prems(3) have k: "k \<in> set games" by simp
    have "map_option (\<lambda>x. x k) (pass_db (body k d1)) = Some (d2 k)"
      using dist rest k by (rule Cons.IH)
    moreover have "d1 k = d k" using d1 False by (rule frame)
    then have "map_option (\<lambda>x. x k) (pass_db (body k d1)) = map_option (\<lambda>x. x k) (pass_db (body k d))"
      by (rule own)
    ultimately show ?thesis by simp
  qed
qed

lemma update_games_completes:
  assumes frame: "\<And>g d d' k. pass_db (body g d) = Some d' \<Longrightarrow> k \<noteq> g \<Longrightarrow> d' k = d k"
    and own: "\<And>g d d'. d g = d' g \<Longrightarrow>
           map_option (\<lambda>x. x g) (pass_db (body g d)) = map_option (\<lambda>x. x g) (pass_db (body g d'))"
  shows "distinct games \<Longrightarrow> \<forall>k \<in> set games. pass_db (body k d) \<noteq> None \<Longrightarrow>
         pass_db (update_games body games d) \<noteq> None"
proof (induction games arbitrary: d)
  case Nil
  then show ?case by (simp add: pass_db_def)
next
  case (Cons g games)
  from Cons.prems(2) obtain d1 where d1: "pass_db (body g d) = Some d1" by auto
  from Cons.prems(1) have dist: "distinct games" and g: "g \<notin> set games" by simp_all
  have "pass_db (body k d1) \<noteq> None" if k: "k \<in> set games" for k
  proof -
    from k g have "k \<noteq> g" by auto
    with d1 have "d1 k = d k" by (rule frame)
    then have "map_option (\<lambda>x. x k) (pass_db (body k d1)) = map_option (\<lambda>x. x k) (pass_db (body k d))"
      by (rule own)
    moreover from Cons.prems(2) k have "pass_db (body k d) \<noteq> None" by simp
    ultimately show ?thesis by auto
  qed
  then have "pass_db (update_games body games d1) \<noteq> None"
    using dist by (intro Cons.IH) simp_all
  with d1 show ?case by (simp add: pass_db_update_games_Cons del: update_games.simps)
qed


lemma update_games_fixed:
  "(\<And>g. g \<in> set games \<Longrightarrow> pass_db (body g d) = Some d) \<Longrightarrow>
   pass_db (update_games body games d) = Some d"
  by (induction games)
    (simp_all add: pass_db_update_games_Cons del: update_games.simps, simp add: pass_db_def)

lemma update_games_events:
  "(\<And>g d. Never_returns \<notin> set (pass_events (body g d))) \<Longrightarrow>
   Never_returns \<notin> set (pass_events (update_games body games d))"
proof (induction games arbitrary: d)
  case Nil
  then show ?case by (simp add: pass_events_def)
next
  case (Cons g games)
  have a: "Never_returns \<notin> set (pass_events (body g d))" by (rule Cons.prems)
  have b: "Never_returns \<notin> set (pass_events (update_games body games d'))" for d'
    using Cons.prems by (rule Cons.IH)
  show ?case
  proof (cases "body g d")
    case (Completed d1 e1)
    with a b[of d1] show ?thesis
      by (auto simp: pass_events_def split: pass.splits)
  next
    case (Hung e1)
    with a show ?thesis by (simp add: pass_events_def)
  qed
qed

lemma updateDatabase_Document:
  "updateDatabase N net (Document d) =
     (case pass_db (update_games (updateGame N net) LOTTERY_GAMES d) of
        Some d1 \<Rightarrow>
          (Document d1,
           [Fs_read] @ pass_events (update_games (updateGame N net) LOTTERY_GAMES d) @ [Fs_write])
      | None \<Rightarrow>
          (Document d,
           [Fs_read] @ pass_events (update_games (updateGame N net) LOTTERY_GAMES d)
             @ [Never_returns]))"
  by (simp add: updateDatabase_def pass_db_def pass_events_def split: pass.splits)

lemma update_pass_events:
  "Never_returns \<notin> set (pass_events (update_games (updateGame N net) games d))"
  by (rule update_games_events) (rule updateGame_events)

lemma never_returns_iff:
  "Never_returns \<in> set (snd (updateDatabase N net (Document d))) \<longleftrightarrow>
     pass_db (update_games (updateGame N net) LOTTERY_GAMES d) = None"
  by (simp add: updateDatabase_Document update_pass_events split: option.splits)

lemma never_returns_readable:
  "Never_returns \<in> set (snd (updateDatabase N net file)) \<Longrightarrow> readable file"
  by (cases "file") (simp_all add: updateDatabase_def readable_def)

lemma update_own:
  assumes "pass_db (update_games (updateGame N net) LOTTERY_GAMES d) = Some d2"
    and "k \<in> set LOTTERY_GAMES"
  shows "map_option (\<lambda>x. x k) (pass_db (updateGame N net k d)) = Some (d2 k)"
proof (rule update_games_own[where body = "updateGame N net" and games = LOTTERY_GAMES
      and d = d and ?d2.0 = d2 and k = k])
  show "\<And>g d d' k. pass_db (updateGame N net g d) = Some d' \<Longrightarrow> k \<noteq> g \<Longrightarrow> d' k = d k"
    by (rule updateGame_frame)
  show "\<And>g d d'. d g = d' g \<Longrightarrow>
      map_option (\<lambda>x. x g) (pass_db (updateGame N net g d))
        = map_option (\<lambda>x. x g) (pass_db (updateGame N net g d'))"
    by (rule updateGame_own)
  show "distinct LOTTERY_GAMES" by (rule distinct_LOTTERY_GAMES)
  show "pass_db (update_games (updateGame N net) LOTTERY_GAMES d) = Some d2" by (rule assms(1))
  show "k \<in> set LOTTERY_GAMES" by (rule assms(2))
qed

lemma update_other:
  assumes "pass_db (update_games (updateGame N net) LOTTERY_GAMES d) = Some d2"
    and "k \<notin> set LOTTERY_GAMES"
  shows "d2 k = d k"
proof (rule update_games_other[where body = "updateGame N net" and games = LOTTERY_GAMES
      and d = d and ?d2.0 = d2 and k = k])
  show "\<And>g d d' k. pass_db (updateGame N net g d) = Some d' \<Longrightarrow> k \<noteq> g \<Longrightarrow> d' k = d k"
    by (rule updateGame_frame)
  show "pass_db (update_games (updateGame N net) LOTTERY_GAMES d) = Some d2" by (rule assms(1))
  show "k \<notin> set LOTTERY_GAMES" by (rule assms(2))
qed

lemma update_completes:
  assumes "\<forall>g \<in> set LOTTERY_GAMES. pass_db (updateGame N net g d) \<noteq> None"
  shows "pass_db (update_games (updateGame N net) LOTTERY_GAMES d) \<noteq> None"
proof (rule update_games_completes[where body = "updateGame N net" and games = LOTTERY_GAMES
      and d = d])
  show "\<And>g d d' k. pass_db (updateGame N net g d) = Some d' \<Longrightarrow> k \<noteq> g \<Longrightarrow> d' k = d k"
    by (rule updateGame_frame)
  show "\<And>g d d'. d g = d' g \<Longrightarrow>
      map_option (\<lambda>x. x g) (pass_db (updateGame N net g d))
        = map_option (\<lambda>x. x g) (pass_db (updateGame N net g d'))"
    by (rule updateGame_own)
  show "distinct LOTTERY_GAMES" by (rule distinct_LOTTERY_GAMES)
  show "\<forall>g \<in> set LOTTERY_GAMES. pass_db (updateGame N net g d) \<noteq> None" by (rule assms)
qed


lemma entry_updateDatabase:
  assumes "pass_db (update_games (updateGame N net) LOTTERY_GAMES d) = Some d2"
  shows "d2 game =
     (if game \<in> set LOTTERY_GAMES
      then (case pass_db (updateGame N net game d) of Some d' \<Rightarrow> d' game | None \<Rightarrow> d game)
      else d game)"
proof (cases "game \<in> set LOTTERY_GAMES")
  case True
  with assms have "map_option (\<lambda>x. x game) (pass_db (updateGame N net game d)) = Some (d2 game)"
    by (rule update_own)
  with True show ?thesis by (auto split: option.splits)
next
  case False
  with assms have "d2 game = d game" by (rule update_other)
  with False show ?thesis by simp
qed

lemma window_updateDatabase:
  "window (fst (updateDatabase N net file)) game =
     (if readable file \<and> game \<in> set LOTTERY_GAMES
         \<and> Never_returns \<notin> set (snd (updateDatabase N net file)) then
        (case fst (fetchContestData net game None) of
           None \<Rightarrow> window file game
         | Some latest \<Rightarrow>
             if latestStored (window file game) < numero latest then
               (case numbersToFetch (fl (latestStored (window file game) + 1)) (numero latest) of
                  None \<Rightarrow> window file game
                | Some nums \<Rightarrow>
                    if non_null (map (\<lambda>num. fst (fetchContestData net game (Some num))) nums) \<noteq> []
                    then mergeContests N (window file game)
                      (non_null (map (\<lambda>num. fst (fetchContestData net game (Some num))) nums))
                    else window file game)
             else window file game)
      else window file game)"
proof (cases "file")
  case (Document d)
  have w: "window (Document d) game = stored d game"
    by (simp add: window_def)
  show ?thesis
  proof (cases "pass_db (update_games (updateGame N net) LOTTERY_GAMES d)")
    case None
    then show ?thesis
      unfolding Document by (simp add: never_returns_iff updateDatabase_Document)
  next
    case (Some d2)
    have nr: "Never_returns \<notin> set (snd (updateDatabase N net (Document d)))"
      using Some by (simp add: never_returns_iff)
    have after: "window (fst (updateDatabase N net (Document d))) game = stored d2 game"
      using Some by (simp add: updateDatabase_Document window_def)
    have e: "d2 game =
       (if game \<in> set LOTTERY_GAMES
        then (case pass_db (updateGame N net game d) of Some d' \<Rightarrow> d' game | None \<Rightarrow> d game)
        else d game)"
      using Some by (rule entry_updateDatabase)
    show ?thesis
      unfolding Document after w
      by (simp add: nr e stored_def pass_db_updateGame readable_def split: option.splits)
  qed
qed (simp_all add: updateDatabase_def readable_def)

lemma window_updateDatabase_cases:
  "window (fst (updateDatabase N net file)) game = window file game
   \<or> (\<exists>new. window (fst (updateDatabase N net file)) game
          = mergeContests N (window file game) new)"
  by (auto simp: window_updateDatabase split: option.splits)

lemma readable_updateDatabase: "readable (fst (updateDatabase N net file)) = readable file"
  by (cases "file") (simp_all add: updateDatabase_def readable_def split: pass.splits)

lemma updateDatabase_up_to_date:
  assumes "\<forall>game \<in> set LOTTERY_GAMES. up_to_date net file game"
  shows "fst (updateDatabase N net file) = file"
proof (cases "file")
  case (Document database)
  have "pass_db (updateGame N net g database) = Some database" if "g \<in> set LOTTERY_GAMES" for g
    using assms that
    by (auto simp: pass_db_updateGame up_to_date_def Document window_def split: option.splits)
  then have "pass_db (update_games (updateGame N net) LOTTERY_GAMES database) = Some database"
    by (rule update_games_fixed)
  then show ?thesis by (simp add: Document updateDatabase_Document)
qed (simp_all add: updateDatabase_def)

section \<open>The file over time\<close>

lemma history_Nil: "history N net0 [] = fst (initializeDatabase N net0 Missing)"
  by (simp add: history_def)

lemma history_snoc:
  "history N net0 (ticks @ [net]) = fst (updateDatabase N net (history N net0 ticks))"
  by (simp add: history_def)

lemma readable_history: "readable (history N net0 ticks)"
  by (induction ticks rule: rev_induct)
    (simp_all add: history_Nil history_snoc readable_initializeDatabase readable_updateDatabase)

lemma length_window_history: "length (window (history N net0 ticks) game) \<le> N"
proof (induction ticks rule: rev_induct)
  case Nil
  have "length (non_null (map f (historyNumbers N L))) \<le> N" for f :: "int \<Rightarrow> contest option" and L
    using length_non_null[of "map f (historyNumbers N L)"] length_historyNumbers[of N L]
    by simp
  then show ?case
    by (simp add: history_Nil window_initializeDatabase split: option.splits)
next
  case (snoc net ticks)
  with window_updateDatabase_cases[of N net "history N net0 ticks" game] show ?case
    by (auto simp: history_snoc length_mergeContests)
qed


section \<open>Safe contest numbers\<close>

lemma set_non_null: "set (non_null results) = {x. Some x \<in> set results}"
  by (induction results) (auto simp: non_null_def split: option.splits)

lemma within_safe_fetched:
  "safe net \<Longrightarrow>
   within_safe (non_null (map (\<lambda>num. fst (fetchContestData net game (Some num))) nums))"
  by (auto simp: within_safe_def safe_def set_non_null)

lemma within_safe_mergeContests:
  "within_safe old \<Longrightarrow> within_safe new \<Longrightarrow> within_safe (mergeContests N old new)"
  using set_mergeContests[of N old new] by (auto simp: within_safe_def)

lemma within_safe_Nil: "within_safe []"
  by (simp add: within_safe_def)

lemma within_safe_sort_key: "within_safe (sort_key f contests) = within_safe contests"
  by (simp add: within_safe_def)

lemma within_safe_initializeDatabase:
  "safe net \<Longrightarrow> within_safe (window (fst (initializeDatabase N net Missing)) game)"
  by (simp add: window_initializeDatabase within_safe_Nil within_safe_sort_key
        within_safe_fetched split: option.splits)

lemma within_safe_updateDatabase:
  "safe net \<Longrightarrow> within_safe (window file game) \<Longrightarrow>
   within_safe (window (fst (updateDatabase N net file)) game)"
  by (simp add: window_updateDatabase within_safe_mergeContests within_safe_fetched
        split: option.splits)

lemma within_safe_history:
  assumes "safe net0" and "\<forall>net \<in> set ticks. safe net"
  shows "within_safe (window (history N net0 ticks) game)"
  using assms(2)
proof (induction ticks rule: rev_induct)
  case Nil
  show ?case unfolding history_Nil using assms(1) by (rule within_safe_initializeDatabase)
next
  case (snoc net ticks)
  then have "safe net" and "within_safe (window (history N net0 ticks) game)"
    by simp_all
  then show ?case unfolding history_snoc by (rule within_safe_updateDatabase)
qed

lemma latestStored_ge: "c \<in> set contests \<Longrightarrow> numero c \<le> latestStored contests"
  by (auto simp: latestStored_def)

lemma latestStored_in: "contests \<noteq> [] \<Longrightarrow> latestStored contests \<in> numero ` set contests"
  using Max_in[of "numero ` set contests"] by (simp add: latestStored_def)

lemma latestStored_safe: "within_safe contests \<Longrightarrow> \<bar>latestStored contests\<bar> < 9007199254740992"
proof (cases "contests = []")
  case True
  then show ?thesis by (simp add: latestStored_def)
next
  case False
  assume "within_safe contests"
  with latestStored_in[OF False] show ?thesis by (auto simp: within_safe_def)
qed

lemma numbersToFetch_safe:
  assumes "safe net" and "within_safe contests"
    and "fst (fetchContestData net game None) = Some latest"
  shows "numbersToFetch (fl (latestStored contests + 1)) (numero latest)
           = Some [latestStored contests + 1 .. numero latest]"
proof -
  from assms(1,3) have "\<bar>numero latest\<bar> < 9007199254740992" by (auto simp: safe_def)
  moreover from assms(2) have "\<bar>latestStored contests\<bar> < 9007199254740992"
    by (rule latestStored_safe)
  ultimately show ?thesis by (intro numbersToFetch_exact) linarith+
qed

lemma updateDatabase_returns:
  assumes "safe net" and "\<forall>game \<in> set LOTTERY_GAMES. within_safe (window file game)"
  shows "Never_returns \<notin> set (snd (updateDatabase N net file))"
proof (cases "file")
  case (Document d)
  have "pass_db (updateGame N net g d) \<noteq> None" if g: "g \<in> set LOTTERY_GAMES" for g
  proof -
    from assms(2) g have "within_safe (stored d g)" by (simp add: Document window_def)
    with assms(1) show ?thesis
      by (simp add: pass_db_updateGame numbersToFetch_safe split: option.splits)
  qed
  then have "\<forall>g \<in> set LOTTERY_GAMES. pass_db (updateGame N net g d) \<noteq> None"
    by blast
  then have "pass_db (update_games (updateGame N net) LOTTERY_GAMES d) \<noteq> None"
    by (rule update_completes)
  then show ?thesis by (simp add: Document never_returns_iff)
qed (simp_all add: updateDatabase_def)

lemma window_updateDatabase_safe:
  assumes "safe net" and "\<forall>game \<in> set LOTTERY_GAMES. within_safe (window file game)"
    and "readable file" and "game \<in> set LOTTERY_GAMES"
  shows "window (fst (updateDatabase N net file)) game =
     (case fst (fetchContestData net game None) of
        None \<Rightarrow> window file game
      | Some latest \<Rightarrow>
          if latestStored (window file game) < numero latest
             \<and> fetched_range net game (latestStored (window file game)) (numero latest) \<noteq> []
          then mergeContests N (window file game)
                 (fetched_range net game (latestStored (window file game)) (numero latest))
          else window file game)"
proof -
  have nr: "Never_returns \<notin> set (snd (updateDatabase N net file))"
    using assms(1,2) by (rule updateDatabase_returns)
  from assms(2,4) have ws: "within_safe (window file game)" by simp
  show ?thesis
    using assms(3,4)
    by (simp add: window_updateDatabase nr numbersToFetch_safe[OF assms(1) ws] fetched_range_def
          split: option.splits)
qed


section \<open>Uniqueness with a faithful upstream\<close>

lemma numero_fetched:
  assumes "faithful net" and "\<forall>n \<in> set nums. 0 < n"
  shows "map numero (non_null (map (\<lambda>num. fst (fetchContestData net game (Some num))) nums))
           = filter (\<lambda>num. fst (fetchContestData net game (Some num)) \<noteq> None) nums"
  using assms(2)
proof (induction nums)
  case Nil
  then show ?case by (simp add: non_null_def)
next
  case (Cons n nums)
  then have IH: "map numero (non_null (map (\<lambda>num. fst (fetchContestData net game (Some num))) nums))
           = filter (\<lambda>num. fst (fetchContestData net game (Some num)) \<noteq> None) nums"
    and n: "0 < n" by simp_all
  show ?case
  proof (cases "fst (fetchContestData net game (Some n))")
    case None
    with IH show ?thesis by (simp add: non_null_def)
  next
    case (Some c)
    with assms(1) n have "numero c = n" by (auto simp: faithful_def)
    with Some IH show ?thesis by (simp add: non_null_def)
  qed
qed

lemma distinct_map_sort_key:
  "distinct (map f (sort_key g xs)) = distinct (map f xs)"
proof -
  have "mset (map f (sort_key g xs)) = mset (map f xs)" by simp
  then show ?thesis by (rule mset_eq_imp_distinct_iff)
qed

lemma latestStored_nonneg: "\<forall>c \<in> set contests. 0 < numero c \<Longrightarrow> 0 \<le> latestStored contests"
proof (cases contests)
  case Nil
  then show ?thesis by (simp add: latestStored_def)
next
  case (Cons c cs)
  assume "\<forall>c \<in> set contests. 0 < numero c"
  with Cons have "0 < numero c" by simp
  also have "numero c \<le> latestStored contests" using Cons by (simp add: latestStored_ge)
  finally show ?thesis by simp
qed

lemma numero_fetched_range:
  assumes "faithful net" and "0 \<le> lo"
  shows "map numero (fetched_range net game lo hi)
           = filter (\<lambda>num. fst (fetchContestData net game (Some num)) \<noteq> None) [lo + 1 .. hi]"
  unfolding fetched_range_def
  by (rule numero_fetched[OF assms(1)]) (use assms(2) in auto)

lemma unique_positive_initializeDatabase:
  assumes "faithful net" and "safe net"
  shows "unique_positive (window (fst (initializeDatabase N net Missing)) game)"
proof -
  have fetched: "unique_positive (sort_key numero (non_null
          (map (\<lambda>num. fst (fetchContestData net game (Some num))) (historyNumbers N L))))"
    if L: "L \<le> 9007199254740992" for L
  proof -
    let ?new = "non_null (map (\<lambda>num. fst (fetchContestData net game (Some num))) (historyNumbers N L))"
    have eq: "map numero ?new =
        filter (\<lambda>num. fst (fetchContestData net game (Some num)) \<noteq> None) (historyNumbers N L)"
      by (rule numero_fetched[OF assms(1)]) (auto dest: positive_historyNumbers)
    then have "distinct (map numero ?new)"
      using L by (simp add: distinct_historyNumbers)
    moreover have "\<forall>n \<in> set (map numero ?new). 0 < n"
      unfolding eq by (auto dest: positive_historyNumbers)
    ultimately show ?thesis
      by (simp add: unique_positive_def distinct_map_sort_key)
  qed
  have empty: "unique_positive []"
    by (simp add: unique_positive_def)
  have "numero latest \<le> 9007199254740992"
    if "fst (fetchContestData net game None) = Some latest" for latest
  proof -
    from assms(2) that have "\<bar>numero latest\<bar> < 9007199254740992"
      unfolding safe_def by blast
    then show ?thesis by linarith
  qed
  then show ?thesis
    by (simp add: window_initializeDatabase fetched empty split: option.splits)
qed

lemma unique_positive_merge:
  assumes "faithful net" and up: "unique_positive old"
  shows "unique_positive (mergeContests N old (fetched_range net game (latestStored old) hi))"
proof -
  let ?new = "fetched_range net game (latestStored old) hi"
  from up have nonneg: "0 \<le> latestStored old"
    by (simp add: unique_positive_def latestStored_nonneg)
  have eq: "map numero ?new =
      filter (\<lambda>num. fst (fetchContestData net game (Some num)) \<noteq> None) [latestStored old + 1 .. hi]"
    using assms(1) nonneg by (rule numero_fetched_range)
  then have above: "\<forall>n \<in> set (map numero ?new). latestStored old < n"
    by auto
  have dnew: "distinct (map numero ?new)"
    unfolding eq by simp
  have "set (map numero old) \<inter> set (map numero ?new) = {}"
  proof -
    have "n \<le> latestStored old" if "n \<in> set (map numero old)" for n
      using that by (auto dest: latestStored_ge)
    with above show ?thesis by fastforce
  qed
  with up dnew have "distinct (map numero (old @ ?new))"
    by (simp add: unique_positive_def)
  then have "distinct (map numero (mergeContests N old ?new))"
    by (rule distinct_mergeContests)
  moreover have "\<forall>c \<in> set (mergeContests N old ?new). 0 < numero c"
  proof
    fix c assume "c \<in> set (mergeContests N old ?new)"
    with set_mergeContests[of N old ?new] have "c \<in> set old \<or> c \<in> set ?new" by auto
    then show "0 < numero c"
    proof
      assume "c \<in> set old" with up show ?thesis by (simp add: unique_positive_def)
    next
      assume "c \<in> set ?new"
      then have "numero c \<in> set (map numero ?new)" by simp
      with above nonneg show ?thesis by fastforce
    qed
  qed
  ultimately show ?thesis by (simp add: unique_positive_def)
qed

lemma unique_positive_updateDatabase:
  assumes "faithful net" and "safe net"
    and "\<forall>game \<in> set LOTTERY_GAMES. within_safe (window file game)"
    and "unique_positive (window file game)"
  shows "unique_positive (window (fst (updateDatabase N net file)) game)"
proof (cases "readable file \<and> game \<in> set LOTTERY_GAMES")
  case True
  then show ?thesis
    using assms(4) unique_positive_merge[OF assms(1,4), of N game]
    by (simp add: window_updateDatabase_safe[OF assms(2,3)] split: option.splits)
next
  case False
  then show ?thesis using assms(4) by (auto simp: window_updateDatabase)
qed

lemma unique_positive_history:
  assumes "faithful net0" and "safe net0" and "\<forall>net \<in> set ticks. faithful net \<and> safe net"
  shows "unique_positive (window (history N net0 ticks) game)"
  using assms(3)
proof (induction ticks rule: rev_induct)
  case Nil
  show ?case unfolding history_Nil using assms(1,2) by (rule unique_positive_initializeDatabase)
next
  case (snoc net ticks)
  then have net: "faithful net" "safe net"
    and all: "\<forall>net \<in> set ticks. faithful net \<and> safe net"
    and IH: "unique_positive (window (history N net0 ticks) game)"
    by simp_all
  from all have "\<forall>net \<in> set ticks. safe net" by simp
  with assms(2) have "\<forall>game \<in> set LOTTERY_GAMES. within_safe (window (history N net0 ticks) game)"
    by (simp add: within_safe_history)
  with net show ?case unfolding history_snoc using IH by (rule unique_positive_updateDatabase)
qed

section \<open>The scenarios\<close>

lemma fetch_megasena:
  "n \<noteq> 0 \<Longrightarrow>
   fst (fetchContestData (megasena_upstream latest gaps) ''megasena'' (Some n)) =
     (if 1 \<le> n \<and> n \<le> latest \<and> n \<notin> set gaps then Some (draw n) else None)"
  "latest \<noteq> 0 \<Longrightarrow>
   fst (fetchContestData (megasena_upstream latest gaps) ''megasena'' None) = Some (draw latest)"
  "game \<noteq> ''megasena'' \<Longrightarrow>
   fst (fetchContestData (megasena_upstream latest gaps) game contestNumber) = None"
  by (auto simp: fetchContestData_def megasena_upstream_def url_suffix_def served_def
        not_found_def ok_def draw_def Let_def)

lemma megasena_supported: "''megasena'' \<in> set LOTTERY_GAMES"
  by (simp add: LOTTERY_GAMES_def)

lemma faithful_megasena: "faithful (megasena_upstream latest gaps)"
proof -
  have "numero c = n"
    if "0 < n" and "fst (fetchContestData (megasena_upstream latest gaps) game (Some n)) = Some c"
    for game n c
  proof (cases "game = ''megasena''")
    case True
    with that show ?thesis
      by (auto simp: fetch_megasena draw_def split: if_splits)
  next
    case False
    with that show ?thesis by (simp add: fetch_megasena)
  qed
  then show ?thesis unfolding faithful_def by blast
qed

lemma safe_megasena:
  assumes "\<bar>latest\<bar> < 9007199254740992"
  shows "safe (megasena_upstream latest gaps)"
proof -
  have "\<bar>numero c\<bar> < 9007199254740992"
    if "fst (fetchContestData (megasena_upstream latest gaps) game cn) = Some c" for game cn c
    using that assms
    by (auto simp: fetchContestData_def megasena_upstream_def url_suffix_def served_def
        not_found_def ok_def draw_def Let_def split: if_splits option.splits)
  then show ?thesis unfolding safe_def by blast
qed

lemma scenario_A:
  "window (history 5 (megasena_upstream 10 []) []) ''megasena'' = map draw [6, 7, 8, 9, 10]"
  by (simp add: history_Nil window_initializeDatabase megasena_supported fetch_megasena
        historyNumbers_eq non_null_def draw_def)

lemma safe_scenario_A:
  "\<forall>game \<in> set LOTTERY_GAMES. within_safe (window (history 5 (megasena_upstream 10 []) []) game)"
  by (simp add: within_safe_history safe_megasena)

lemma scenario_B:
  "window (fst (updateDatabase 5 (megasena_upstream 12 [11])
       (history 5 (megasena_upstream 10 []) []))) ''megasena'' = map draw [7, 8, 9, 10, 12]"
  by (simp add: window_updateDatabase_safe[OF _ safe_scenario_A] safe_megasena readable_history
        megasena_supported scenario_A fetch_megasena fetched_range_def latestStored_def
        mergeContests_def non_null_def draw_def)

lemma scenario_C:
  "window (fst (updateDatabase 5 (megasena_upstream 10 [])
       (history 5 (megasena_upstream 10 []) []))) ''megasena'' = map draw [6, 7, 8, 9, 10]"
  by (simp add: window_updateDatabase_safe[OF _ safe_scenario_A] safe_megasena readable_history
        megasena_supported scenario_A fetch_megasena latestStored_def draw_def)

lemma up_to_date_offline: "up_to_date offline file game"
  by (simp add: up_to_date_def fetchContestData_def offline_def)

lemma upto_1_2: "[1 .. 2 :: int] = [1, 2]"
  by (simp add: upto.simps)

lemma numero_draw: "numero (draw n) = n"
  by (simp add: draw_def)

lemma draw_inject: "draw m = draw n \<longleftrightarrow> m = n"
  by (simp add: draw_def)

section \<open>Properties of the bootstrap synchronizer\<close>

text \<open>
  Claim C2, as the code has it. On an absent file, for every game of \<open>LOTTERY_GAMES\<close>
  whose latest contest is fetched with a number \<open>L\<close> of at most \<open>2 ^ 53\<close>, the written
  document holds for that game the non-null results of fetching \<open>L, L - 1, \<dots>\<close> down to
  \<open>L - N + 1\<close>, but not below 1, sorted ascending by \<open>numero\<close>, where \<open>N\<close> is the window
  size (\<open>CONTESTS_TO_STORE\<close>, 500, in the program). A game whose latest contest cannot be
  fetched gets no entry, whatever happens to the other games. With latest contest 10 and
  window size 5 the window is 6, 7, 8, 9, 10.
\<close>

theorem initializeDatabase_window:
  "game \<in> set LOTTERY_GAMES \<Longrightarrow>
     (\<forall>latest. fst (fetchContestData net game None) = Some latest
          \<and> numero latest \<le> 9007199254740992 \<longrightarrow>
        entry (fst (initializeDatabase N net Missing)) game =
          Some (sort_key numero (non_null
            (map (\<lambda>num. fst (fetchContestData net game (Some num)))
               (rev [max 1 (numero latest - int N + 1) .. numero latest])))))
   \<and> (fst (fetchContestData net game None) = None \<longrightarrow>
        entry (fst (initializeDatabase N net Missing)) game = None)
   \<and> window (fst (initializeDatabase 5 (megasena_upstream 10 []) Missing)) ''megasena''
        = map draw [6, 7, 8, 9, 10]"
  using scenario_A
  by (simp add: entry_initializeDatabase fst_initializeGame historyNumbers_eq history_Nil)

theorem initializeDatabase_window_witness:
  "''megasena'' \<in> set LOTTERY_GAMES
   \<and> fst (fetchContestData (megasena_upstream 10 []) ''megasena'' None) = Some (draw 10)
   \<and> numero (draw 10) \<le> 9007199254740992
   \<and> entry (fst (initializeDatabase 5 (megasena_upstream 10 []) Missing)) ''megasena''
        = Some (map draw [6, 7, 8, 9, 10])
   \<and> ''quina'' \<in> set LOTTERY_GAMES
   \<and> fst (fetchContestData (megasena_upstream 10 []) ''quina'' None) = None
   \<and> entry (fst (initializeDatabase 5 (megasena_upstream 10 []) Missing)) ''quina'' = None"
  using initializeDatabase_window [of "''megasena''" "megasena_upstream 10 []" 5]
    initializeDatabase_window [of "''quina''" "megasena_upstream 10 []" 5]
  by (simp add: LOTTERY_GAMES_def fetch_megasena non_null_def draw_def)

text \<open>
  Claim C2, as stated, holds for every \<open>L\<close>. The program computes \<open>L - i\<close> on doubles:
  for \<open>L = 2 ^ 53 + 2\<close> it requests \<open>2 ^ 53 + 2\<close>, then \<open>2 ^ 53\<close> twice, and never
  \<open>2 ^ 53 + 1\<close>, whose record the list of the claim holds.
\<close>

theorem initializeDatabase_rounds:
  "fst (fetchContestData (megasena_upstream 9007199254740994 []) ''megasena'' None)
     = Some (draw 9007199254740994)
   \<and> entry (fst (initializeDatabase CONTESTS_TO_STORE (megasena_upstream 9007199254740994 [])
        Missing)) ''megasena'' \<noteq>
      Some (sort_key numero (non_null
        (map (\<lambda>num. fst (fetchContestData (megasena_upstream 9007199254740994 []) ''megasena''
                (Some num)))
           (rev [max 1 (numero (draw 9007199254740994) - int CONTESTS_TO_STORE + 1)
                  .. numero (draw 9007199254740994)]))))"
proof -
  let ?net = "megasena_upstream 9007199254740994 []"
  let ?stored = "sort_key numero (non_null
        (map (\<lambda>num. fst (fetchContestData ?net ''megasena'' (Some num)))
           (historyNumbers CONTESTS_TO_STORE 9007199254740994)))"
  let ?claimed = "sort_key numero (non_null
        (map (\<lambda>num. fst (fetchContestData ?net ''megasena'' (Some num)))
           (rev [max 1 (numero (draw 9007199254740994) - int CONTESTS_TO_STORE + 1)
                  .. numero (draw 9007199254740994)])))"
  have latest: "fst (fetchContestData ?net ''megasena'' None) = Some (draw 9007199254740994)"
    by (simp add: fetch_megasena)
  have e: "entry (fst (initializeDatabase CONTESTS_TO_STORE ?net Missing)) ''megasena''
      = Some ?stored"
    by (simp add: entry_initializeDatabase megasena_supported fst_initializeGame latest numero_draw)
  have between: "9007199254740993
      \<in> set [max 1 (numero (draw 9007199254740994) - int CONTESTS_TO_STORE + 1)
               .. numero (draw 9007199254740994)]"
    unfolding set_upto by (simp add: numero_draw CONTESTS_TO_STORE_def)
  have served_between: "fst (fetchContestData ?net ''megasena'' (Some 9007199254740993))
      = Some (draw 9007199254740993)"
    by (simp add: fetch_megasena)
  have "(\<lambda>num. fst (fetchContestData ?net ''megasena'' (Some num))) 9007199254740993
      \<in> (\<lambda>num. fst (fetchContestData ?net ''megasena'' (Some num)))
          ` set [max 1 (numero (draw 9007199254740994) - int CONTESTS_TO_STORE + 1)
                  .. numero (draw 9007199254740994)]"
    using between by (rule imageI)
  then have "Some (draw 9007199254740993)
      \<in> set (map (\<lambda>num. fst (fetchContestData ?net ''megasena'' (Some num)))
               (rev [max 1 (numero (draw 9007199254740994) - int CONTESTS_TO_STORE + 1)
                  .. numero (draw 9007199254740994)]))"
    unfolding served_between by (simp only: set_map set_rev)
  then have "draw 9007199254740993 \<in> set ?claimed"
    by (simp only: set_sort set_non_null mem_Collect_eq)
  moreover have "draw 9007199254740993 \<notin> set ?stored"
  proof
    assume "draw 9007199254740993 \<in> set ?stored"
    then obtain n where n: "n \<in> set (historyNumbers CONTESTS_TO_STORE 9007199254740994)"
      and f: "fst (fetchContestData ?net ''megasena'' (Some n)) = Some (draw 9007199254740993)"
      by (auto simp: set_non_null)
    from n have "0 < n" by (rule positive_historyNumbers)
    with f have "n = 9007199254740993"
      by (simp add: fetch_megasena draw_inject split: if_splits)
    with historyNumbers_doubles[OF n] show False by simp
  qed
  ultimately have "?stored \<noteq> ?claimed" by metis
  with e latest show ?thesis by simp
qed

section \<open>Properties of the incremental synchronizer\<close>

text \<open>
  Claim C5. When db.json cannot be read or parsed, the run writes the error, leaves
  the file as it was, writes nothing to it and issues no request.
\<close>

theorem updateDatabase_unreadable:
  "\<not> readable file \<Longrightarrow>
     fst (updateDatabase N net file) = file
   \<and> Fs_write \<notin> set (snd (updateDatabase N net file))
   \<and> Error_db_unreadable \<in> set (snd (updateDatabase N net file))
   \<and> (\<forall>game. requests_of game (snd (updateDatabase N net file)) = [])"
  by (cases "file") (simp_all add: readable_def updateDatabase_def)

theorem updateDatabase_unreadable_witness:
  "\<not> readable Corrupt
   \<and> fst (updateDatabase CONTESTS_TO_STORE (megasena_upstream 12 []) Corrupt) = Corrupt
   \<and> \<not> readable Missing
   \<and> fst (updateDatabase CONTESTS_TO_STORE (megasena_upstream 12 []) Missing) = Missing
   \<and> Fs_write \<notin> set (snd (updateDatabase CONTESTS_TO_STORE (megasena_upstream 12 []) Missing))"
  using updateDatabase_unreadable [of Corrupt CONTESTS_TO_STORE "megasena_upstream 12 []"]
    updateDatabase_unreadable [of Missing CONTESTS_TO_STORE "megasena_upstream 12 []"]
  by (simp add: readable_def)




text \<open>
  Claim C3. After the bootstrap and after every tick, the window of every game has at
  most 500 records.
\<close>

theorem window_bound:
  "length (window (history CONTESTS_TO_STORE net0 ticks) game) \<le> 500"
  using length_window_history[of CONTESTS_TO_STORE net0 ticks game]
  by (simp add: CONTESTS_TO_STORE_def)

theorem window_bound_witness:
  "length (window (history CONTESTS_TO_STORE (megasena_upstream 10 []) [megasena_upstream 12 [11]])
     ''megasena'') \<le> 500"
  using window_bound [of "megasena_upstream 10 []" "[megasena_upstream 12 [11]]" "''megasena''"]
  by simp

text \<open>
  Claim C4, as the code has it. When the upstream answers every request for a positive
  contest number with the contest of that number, and every contest number it delivers
  is a safe integer, then after the bootstrap and after every tick no window holds two
  records with the same \<open>numero\<close>, and the records for the numbers above the highest
  stored one all have numbers above it.
\<close>

theorem windows_unique_when_faithful:
  assumes "faithful net0" and "safe net0"
    and "\<forall>net \<in> set ticks. faithful net \<and> safe net"
  shows "distinct (map numero (window (history N net0 ticks) game))
    \<and> (\<forall>net hi. faithful net \<longrightarrow>
          (\<forall>c \<in> set (fetched_range net game (latestStored (window (history N net0 ticks) game)) hi).
             latestStored (window (history N net0 ticks) game) < numero c))"
proof -
  let ?w = "window (history N net0 ticks) game"
  have up: "unique_positive ?w" using assms by (rule unique_positive_history)
  then have nonneg: "0 \<le> latestStored ?w"
    by (simp add: unique_positive_def latestStored_nonneg)
  have "latestStored ?w < numero c"
    if "faithful net" and "c \<in> set (fetched_range net game (latestStored ?w) hi)" for net hi c
  proof -
    from that(2) have "numero c \<in> set (map numero (fetched_range net game (latestStored ?w) hi))"
      by simp
    then show ?thesis
      unfolding numero_fetched_range[OF that(1) nonneg] by simp
  qed
  with up show ?thesis by (simp add: unique_positive_def)
qed

theorem windows_unique_when_faithful_witness:
  "faithful (megasena_upstream 10 []) \<and> safe (megasena_upstream 10 [])
   \<and> faithful (megasena_upstream 12 [11]) \<and> safe (megasena_upstream 12 [11])
   \<and> distinct (map numero
        (window (history 5 (megasena_upstream 10 []) [megasena_upstream 12 [11]]) ''megasena''))"
proof -
  have f: "faithful (megasena_upstream 10 [])" "faithful (megasena_upstream 12 [11])"
    by (rule faithful_megasena)+
  have s: "safe (megasena_upstream 10 [])" "safe (megasena_upstream 12 [11])"
    by (simp_all add: safe_megasena)
  from f s have "\<forall>net \<in> set [megasena_upstream 12 [11]]. faithful net \<and> safe net" by simp
  with windows_unique_when_faithful [OF f(1) s(1), of "[megasena_upstream 12 [11]]" 5 "''megasena''"]
  have "distinct (map numero
        (window (history 5 (megasena_upstream 10 []) [megasena_upstream 12 [11]]) ''megasena''))"
    by blast
  with f s show ?thesis by simp
qed

text \<open>
  Claim C4, as stated, holds for every upstream. The program stores the records it
  receives without comparing their \<open>numero\<close> with the requested number: with an
  upstream that answers every request with contest 2, the bootstrap stores that record
  twice.
\<close>

theorem windows_not_unique:
  "\<not> distinct (map numero (window (history CONTESTS_TO_STORE stuck_upstream []) ''megasena''))"
  by (simp add: history_Nil window_initializeDatabase megasena_supported historyNumbers_eq
        CONTESTS_TO_STORE_def fetchContestData_def stuck_upstream_def served_def draw_def
        url_suffix_def ok_def non_null_def upto_1_2)

text \<open>
  Beyond the safe integers a faithful upstream does not help: from the latest contest
  \<open>2 ^ 53 + 2\<close> the bootstrap requests \<open>2 ^ 53\<close> twice and stores its record twice.
\<close>

lemma duplicates_beyond_safe:
  "\<not> distinct (map numero (window
      (history CONTESTS_TO_STORE (megasena_upstream 9007199254740994 []) []) ''megasena''))"
proof -
  let ?net = "megasena_upstream 9007199254740994 []"
  let ?nums = "historyNumbers CONTESTS_TO_STORE 9007199254740994"
  have "?nums = historyNumbers (3 + 497) 9007199254740994"
    by (simp add: CONTESTS_TO_STORE_def)
  then have "\<exists>rest. ?nums = [9007199254740994, 9007199254740992, 9007199254740992] @ rest"
    unfolding historyNumbers_add historyNumbers_beyond_safe by blast
  then obtain rest
    where nums: "?nums = [9007199254740994, 9007199254740992, 9007199254740992] @ rest" ..
  have "map numero (non_null (map (\<lambda>num. fst (fetchContestData ?net ''megasena'' (Some num))) ?nums))
      = filter (\<lambda>num. fst (fetchContestData ?net ''megasena'' (Some num)) \<noteq> None) ?nums"
    by (rule numero_fetched[OF faithful_megasena]) (auto dest: positive_historyNumbers)
  also have "\<not> distinct \<dots>"
    unfolding nums by (simp add: fetch_megasena)
  finally have "\<not> distinct (map numero
      (non_null (map (\<lambda>num. fst (fetchContestData ?net ''megasena'' (Some num))) ?nums)))" .
  then show ?thesis
    by (simp add: history_Nil window_initializeDatabase megasena_supported fetch_megasena
          numero_draw distinct_map_sort_key)
qed

text \<open>
  Claim C6. When, for every game, the latest contest cannot be fetched or is not above
  the highest stored number, a tick leaves the file holding the same document, and so
  does a second tick right after it. The file is written each time with the same
  content: identical documents have identical texts.
\<close>

theorem updateDatabase_twice_unchanged:
  "\<forall>game \<in> set LOTTERY_GAMES. up_to_date net1 file game \<and> up_to_date net2 file game \<Longrightarrow>
     fst (updateDatabase N net1 file) = file
   \<and> fst (updateDatabase N net2 (fst (updateDatabase N net1 file))) = file"
  by (simp add: updateDatabase_up_to_date)

theorem updateDatabase_twice_unchanged_witness:
  "up_to_date (megasena_upstream 10 []) (history 5 (megasena_upstream 10 []) []) ''megasena''
   \<and> up_to_date offline (history 5 (megasena_upstream 10 []) []) ''megasena''
   \<and> fst (updateDatabase 5 offline (fst (updateDatabase 5 (megasena_upstream 10 [])
        (history 5 (megasena_upstream 10 []) []))))
      = history 5 (megasena_upstream 10 []) []"
proof -
  have "up_to_date (megasena_upstream 10 []) (history 5 (megasena_upstream 10 []) []) game" for game
    by (cases "game = ''megasena''")
      (simp_all add: up_to_date_def fetch_megasena scenario_A latestStored_def draw_def)
  then have all: "\<forall>game \<in> set LOTTERY_GAMES.
      up_to_date (megasena_upstream 10 []) (history 5 (megasena_upstream 10 []) []) game
      \<and> up_to_date offline (history 5 (megasena_upstream 10 []) []) game"
    by (simp add: up_to_date_offline)
  with updateDatabase_twice_unchanged [of "megasena_upstream 10 []"
      "history 5 (megasena_upstream 10 []) []" offline 5]
  show ?thesis using megasena_supported by blast
qed

text \<open>
  Claim C7. A tick removes a stored record only by the cut to the window size \<open>N\<close>: every
  record of the stored window is in the new window, or the new window is full and each
  of its records has a contest number at least as high. No fetch of a stored contest is
  involved, so this holds whatever the upstream would answer for it.
\<close>

theorem updateDatabase_keeps_recent:
  "c \<in> set (window file game) \<Longrightarrow>
     c \<in> set (window (fst (updateDatabase N net file)) game)
     \<or> (length (window (fst (updateDatabase N net file)) game) = N
        \<and> (\<forall>d \<in> set (window (fst (updateDatabase N net file)) game). numero c \<le> numero d))"
proof -
  assume c: "c \<in> set (window file game)"
  from window_updateDatabase_cases[of N net "file" game] show ?thesis
  proof
    assume "window (fst (updateDatabase N net file)) game = window file game"
    with c show ?thesis by simp
  next
    assume "\<exists>new. window (fst (updateDatabase N net file)) game
        = mergeContests N (window file game) new"
    then obtain new where merged: "window (fst (updateDatabase N net file)) game
        = mergeContests N (window file game) new" ..
    from c have "c \<in> set (window file game) \<union> set new" by simp
    then show ?thesis unfolding merged by (rule mergeContests_keeps_or_full)
  qed
qed

theorem updateDatabase_keeps_recent_witness:
  "draw 7 \<in> set (window (history 5 (megasena_upstream 10 []) []) ''megasena'')
   \<and> draw 7 \<in> set (window (fst (updateDatabase 5 (megasena_upstream 12 [11])
        (history 5 (megasena_upstream 10 []) []))) ''megasena'')
   \<and> draw 6 \<in> set (window (history 5 (megasena_upstream 10 []) []) ''megasena'')
   \<and> draw 6 \<notin> set (window (fst (updateDatabase 5 (megasena_upstream 12 [11])
        (history 5 (megasena_upstream 10 []) []))) ''megasena'')
   \<and> length (window (fst (updateDatabase 5 (megasena_upstream 12 [11])
        (history 5 (megasena_upstream 10 []) []))) ''megasena'') = 5"
  using updateDatabase_keeps_recent [of "draw 6" "history 5 (megasena_upstream 10 []) []"
      "''megasena''" 5 "megasena_upstream 12 [11]"]
    updateDatabase_keeps_recent [of "draw 7" "history 5 (megasena_upstream 10 []) []"
      "''megasena''" 5 "megasena_upstream 12 [11]"]
  by (simp add: scenario_A scenario_B draw_def)

end
